theory Spec2Isabelle
  imports Complex_Main
begin

section \<open>Numbers, arrays and failures\<close>

text \<open>
  The notebook computes with Python floats and numpy arrays of doubles. The model
  computes with real numbers: a double is read as the real it denotes, rounding is
  left out, and so are the non-finite doubles. A solver state, a residual and a
  derivative are each a scalar or a one-dimensional array.

  A failure is an exception of the notebook, with two entries for the places where
  the doubles leave the real numbers. \<open>ZeroDivision\<close> is a division whose divisor is
  zero (or has a zero entry): Python floats raise ZeroDivisionError there, numpy
  doubles go on with an infinity or a NaN. \<open>NonFinite\<close> is a logarithm or a square
  root outside its domain, which numpy answers with an infinity or a NaN. The model
  stops at both instead of following HOL's \<open>x / 0 = 0\<close>, \<open>ln 0\<close> and
  \<open>sqrt (- 1) = - 1\<close>.
\<close>

datatype failure =
  TypeError | IndexError | ValueError | UnboundLocalError | ZeroDivision | NonFinite

datatype npval = Scalar real | Vector "real list"

text \<open>
  An element-wise binary operation with numpy's broadcasting of one-dimensional
  operands: equal lengths pair up, a scalar or an array of length one is stretched,
  any other pair of lengths raises ValueError.
\<close>

fun broadcast2 :: "(real \<Rightarrow> real \<Rightarrow> real) \<Rightarrow> npval \<Rightarrow> npval \<Rightarrow> failure + npval" where
  "broadcast2 g (Scalar a) (Scalar b) = Inr (Scalar (g a b))"
| "broadcast2 g (Scalar a) (Vector ys) = Inr (Vector (map (g a) ys))"
| "broadcast2 g (Vector xs) (Scalar b) = Inr (Vector (map (\<lambda>x. g x b) xs))"
| "broadcast2 g (Vector xs) (Vector ys) =
     (if length xs = length ys then Inr (Vector (map2 g xs ys))
      else if length xs = 1 then Inr (Vector (map (g (hd xs)) ys))
      else if length ys = 1 then Inr (Vector (map (\<lambda>x. g x (hd ys)) xs))
      else Inl ValueError)"

fun np_neg :: "npval \<Rightarrow> npval" where
  "np_neg (Scalar a) = Scalar (- a)"
| "np_neg (Vector xs) = Vector (map uminus xs)"

fun has_zero :: "npval \<Rightarrow> bool" where
  "has_zero (Scalar b) = (b = 0)"
| "has_zero (Vector ys) = (0 \<in> set ys)"

definition np_add :: "npval \<Rightarrow> npval \<Rightarrow> failure + npval" where
  "np_add a b = broadcast2 (+) a b"

definition np_sub :: "npval \<Rightarrow> npval \<Rightarrow> failure + npval" where
  "np_sub a b = broadcast2 (-) a b"

definition np_div :: "npval \<Rightarrow> npval \<Rightarrow> failure + npval" where
  "np_div a b =
     (case broadcast2 (/) a b of
        Inl e \<Rightarrow> Inl e
      | Inr q \<Rightarrow> if has_zero b then Inl ZeroDivision else Inr q)"

text \<open>
  \<open>np.where(d <= 0)[0]\<close>: the indices of the entries that are at most zero, in
  increasing order. For a scalar \<open>d\<close> the numpy the notebook runs on (it has
  \<open>np.Inf\<close>) reads the comparison's boolean as an array of one element, so the
  answer is \<open>[0]\<close> or \<open>[]\<close>.
\<close>

fun where_le_zero :: "npval \<Rightarrow> nat list" where
  "where_le_zero (Scalar d) = (if d \<le> 0 then [0] else [])"
| "where_le_zero (Vector ds) = filter (\<lambda>i. ds ! i \<le> 0) [0..<length ds]"

text \<open>
  \<open>R[ind] = R[ind] * 0.5 + R[ind]\<close>: the right-hand side is read from \<open>R\<close> first,
  then written back at the same indices. A scalar cannot be indexed: a Python float
  raises TypeError (a numpy double raises IndexError at the same place).
\<close>

definition assign_at :: "nat list \<Rightarrow> real list \<Rightarrow> real list \<Rightarrow> real list" where
  "assign_at ind vs rs = fold (\<lambda>(i, v) acc. acc[i := v]) (zip ind vs) rs"

fun damp :: "nat list \<Rightarrow> npval \<Rightarrow> failure + npval" where
  "damp ind (Scalar r) = Inl TypeError"
| "damp ind (Vector rs) =
     (if \<exists>i \<in> set ind. length rs \<le> i then Inl IndexError
      else Inr (Vector (assign_at ind (map (\<lambda>i. rs ! i * 0.5 + rs ! i) ind) rs)))"

text \<open>\<open>np.linalg.norm(x, np.Inf)\<close> is \<open>abs(x).max()\<close>, which raises on an empty array.\<close>

definition linf_norm :: "real list \<Rightarrow> failure + real" where
  "linf_norm xs = (if xs = [] then Inl ValueError else Inr (Max (set (map abs xs))))"

section \<open>The Newton solver\<close>

text \<open>
  The two branches that compute \<open>epsilon\<close> at the end of the loop body:
  \<open>np.isscalar(R)\<close> holds of a scalar and of no array. \<open>R\<close> is the sum of a
  quotient and \<open>old_R\<close>, so it is an array whenever \<open>old_R\<close> is one; the case of a
  scalar \<open>R\<close> beside an array \<open>old_R\<close> is there for totality only (its \<open>epsilon\<close>
  would be an array), and so is the scalar difference in the array branch.
\<close>

fun convergence_metric :: "npval \<Rightarrow> npval \<Rightarrow> failure + real" where
  "convergence_metric (Scalar r) (Scalar old_r) =
     (if old_r = 0 then Inl ZeroDivision else Inr (\<bar>(r - old_r) / old_r\<bar>))"
| "convergence_metric (Scalar r) (Vector old_rs) = Inl ValueError"
| "convergence_metric (Vector rs) old_R =
     (case np_sub (Vector rs) old_R of
        Inl e \<Rightarrow> Inl e
      | Inr (Scalar d) \<Rightarrow> Inr \<bar>d\<bar>
      | Inr (Vector ds) \<Rightarrow> linf_norm ds)"

text \<open>
  One pass through the body of the \<open>while\<close> loop, after the test of the iteration
  cap: from \<open>old_R = R\<close> to the new \<open>epsilon\<close>. The result is the new \<open>R\<close>, the new
  \<open>epsilon\<close>, \<open>function_value\<close> and \<open>function_derivative\<close>.
\<close>

definition newton_update ::
  "(npval \<Rightarrow> 'a \<Rightarrow> npval) \<Rightarrow> (npval \<Rightarrow> 'a \<Rightarrow> npval) \<Rightarrow> 'a \<Rightarrow> npval
     \<Rightarrow> failure + (npval \<times> real \<times> npval \<times> npval)" where
  "newton_update f fprime args R =
     (let old_R = R;
          function_value = f R args;
          function_derivative = fprime R args;
          ind = where_le_zero function_derivative
      in case np_div (np_neg function_value) function_derivative of
           Inl e \<Rightarrow> Inl e
         | Inr q \<Rightarrow>
             (case np_add q R of
                Inl e \<Rightarrow> Inl e
              | Inr R1 \<Rightarrow>
                  (case (if 0 < length ind then damp ind R1 else Inr R1) of
                     Inl e \<Rightarrow> Inl e
                   | Inr R2 \<Rightarrow>
                       (case convergence_metric R2 old_R of
                          Inl e \<Rightarrow> Inl e
                        | Inr epsilon \<Rightarrow>
                            Inr (R2, epsilon, function_value, function_derivative)))))"

text \<open>
  The two ways \<open>newtons_method\<close> returns: \<open>return (R, count)\<close> at the iteration cap,
  and the tuple of seven components after the loop.
\<close>

datatype outcome =
    Aborted npval int
  | Converged npval int real npval npval "npval list" "npval list"

text \<open>
  The \<open>while\<close> loop, with the local variables as arguments. \<open>function_value\<close> and
  \<open>function_derivative\<close> are \<open>None\<close> until the first pass binds them; reading an
  unbound local in the final \<open>return\<close> raises UnboundLocalError. The message that
  the code prints before it returns at the cap is not part of the result and is left
  out.
\<close>

function while_loop ::
  "(npval \<Rightarrow> 'a \<Rightarrow> npval) \<Rightarrow> (npval \<Rightarrow> 'a \<Rightarrow> npval) \<Rightarrow> int \<Rightarrow> real \<Rightarrow> 'a \<Rightarrow> bool
     \<Rightarrow> npval \<Rightarrow> int \<Rightarrow> real \<Rightarrow> npval option \<Rightarrow> npval option \<Rightarrow> npval list \<Rightarrow> npval list
     \<Rightarrow> failure + outcome" where
  "while_loop f fprime max_iter tol args debug
       R count epsilon function_value function_derivative f_return fprime_return =
     (if tol \<le> epsilon then
        (if max_iter \<le> count + 1 then Inr (Aborted R (count + 1))
         else
           (case newton_update f fprime args R of
              Inl e \<Rightarrow> Inl e
            | Inr (R', epsilon', fv, dv) \<Rightarrow>
                while_loop f fprime max_iter tol args debug
                  R' (count + 1) epsilon' (Some fv) (Some dv)
                  (if debug then f_return @ [fv] else f_return)
                  (if debug then fprime_return @ [dv] else fprime_return)))
      else
        (case function_value of
           None \<Rightarrow> Inl UnboundLocalError
         | Some fv \<Rightarrow>
             (case function_derivative of
                None \<Rightarrow> Inl UnboundLocalError
              | Some dv \<Rightarrow> Inr (Converged R count epsilon fv dv f_return fprime_return))))"
  by pat_completeness auto
termination
  by (relation "measure (\<lambda>(f, fprime, max_iter, tol, args, debug, R, count, rest).
                   nat (max_iter - count))") auto

definition newtons_method ::
  "(npval \<Rightarrow> 'a \<Rightarrow> npval) \<Rightarrow> (npval \<Rightarrow> 'a \<Rightarrow> npval) \<Rightarrow> npval \<Rightarrow> int \<Rightarrow> real \<Rightarrow> 'a \<Rightarrow> bool
     \<Rightarrow> failure + outcome" where
  "newtons_method f fprime R max_iter tol args debug =
     while_loop f fprime max_iter tol args debug R 0 1 None None [] []"

section \<open>The standard normal distribution\<close>

text \<open>
  Modelled from the spec: \<open>norm.pdf\<close> and \<open>norm.cdf\<close> are scipy's, not the
  repository's; the spec names them the standard-normal PDF and CDF. The density is
  \<open>exp (- x\<^sup>2 / 2) / sqrt (2 pi)\<close>, and the distribution function is one half plus
  the integral of the density from \<open>0\<close> to \<open>x\<close>, written here as the power series
  that integrating the exponential series term by term gives.
\<close>

definition norm_pdf :: "real \<Rightarrow> real" where
  "norm_pdf x = exp (- (x ^ 2) / 2) / sqrt (2 * pi)"

definition cdf_term :: "real \<Rightarrow> nat \<Rightarrow> real" where
  "cdf_term x n = (- 1) ^ n * x ^ (2 * n + 1) / (2 ^ n * fact n * real (2 * n + 1))"

definition norm_cdf :: "real \<Rightarrow> real" where
  "norm_cdf x = 1 / 2 + (\<Sum>n. cdf_term x n) / sqrt (2 * pi)"

section \<open>The pricing functions\<close>

text \<open>
  The pricing functions on scalar arguments (on arrays numpy applies the same
  expressions entry by entry). The guards are the places where the doubles leave the
  real numbers, in the order the expressions are evaluated.
\<close>

definition call_price ::
  "real \<Rightarrow> real \<Rightarrow> real \<Rightarrow> real \<Rightarrow> real \<Rightarrow> failure + (real \<times> real \<times> real)" where
  "call_price sigma S K r t =
     (if sigma = 0 then Inl ZeroDivision
      else if t < 0 then Inl NonFinite
      else if t = 0 then Inl ZeroDivision
      else if K = 0 then Inl ZeroDivision
      else if S / K \<le> 0 then Inl NonFinite
      else
        let d1 = (1 / sigma * (1 / sqrt t)) * (ln (S / K) + (r + sigma ^ 2 / 2) * t);
            d2 = d1 - sigma * sqrt t;
            C = S * norm_cdf d1 - (norm_cdf d2 * K) * exp (- r * t)
        in Inr (C, d1, d2))"

definition put_price :: "real \<Rightarrow> real \<Rightarrow> real \<Rightarrow> real \<Rightarrow> real \<Rightarrow> failure + real" where
  "put_price sigma S K r t =
     (if sigma = 0 then Inl ZeroDivision
      else if t < 0 then Inl NonFinite
      else if t = 0 then Inl ZeroDivision
      else if K = 0 then Inl ZeroDivision
      else if S / K \<le> 0 then Inl NonFinite
      else
        let d1 = (1 / sigma * (1 / sqrt t)) * (ln (S / K) + (r + sigma ^ 2 / 2) * t);
            d2 = d1 - sigma * sqrt t;
            P = - (S * norm_cdf (- d1)) + (norm_cdf (- d2) * K) * exp (- r * t)
        in Inr P)"

definition bachelier :: "real \<Rightarrow> real \<Rightarrow> real \<Rightarrow> real \<Rightarrow> real \<Rightarrow> failure + real" where
  "bachelier sigma S K r t =
     (if 2 * r = 0 then Inl ZeroDivision
      else if sigma ^ 2 / (2 * r) * (exp (2 * r * t) - 1) < 0 then Inl NonFinite
      else if sqrt (sigma ^ 2 / (2 * r) * (exp (2 * r * t) - 1)) = 0 then Inl ZeroDivision
      else
        let d = (S * exp (r * t) - K) / sqrt (sigma ^ 2 / (2 * r) * (exp (2 * r * t) - 1));
            C = exp (- r * t) * (S * exp (r * t) - K) * norm_cdf d +
                exp (- r * t) * sqrt (sigma ^ 2 / (2 * r) * (exp (2 * r * t) - 1)) * norm_pdf d
        in Inr C)"

section \<open>The objective functions\<close>

text \<open>
  The objective functions subtract the observed price from what the pricing function
  returns, and \<open>call_price\<close> returns a tuple. So the subtraction is modelled on
  Python objects: a Python float, a numpy double, a numpy array and a tuple of
  numbers. Python has no subtraction on tuples and raises TypeError; a numpy operand
  beside a tuple turns the tuple into an array first.
\<close>

datatype pyobj = PyFloat real | NpFloat real | NpArray "real list" | PyTuple "real list"

definition array_sub :: "real list \<Rightarrow> real list \<Rightarrow> failure + pyobj" where
  "array_sub xs ys =
     (if length xs = length ys then Inr (NpArray (map2 (-) xs ys))
      else if length xs = 1 then Inr (NpArray (map (\<lambda>y. hd xs - y) ys))
      else if length ys = 1 then Inr (NpArray (map (\<lambda>x. x - hd ys) xs))
      else Inl ValueError)"

fun py_sub :: "pyobj \<Rightarrow> pyobj \<Rightarrow> failure + pyobj" where
  "py_sub (PyFloat a) (PyFloat b) = Inr (PyFloat (a - b))"
| "py_sub (PyFloat a) (NpFloat b) = Inr (NpFloat (a - b))"
| "py_sub (NpFloat a) (PyFloat b) = Inr (NpFloat (a - b))"
| "py_sub (NpFloat a) (NpFloat b) = Inr (NpFloat (a - b))"
| "py_sub (PyFloat a) (NpArray ys) = Inr (NpArray (map (\<lambda>y. a - y) ys))"
| "py_sub (NpFloat a) (NpArray ys) = Inr (NpArray (map (\<lambda>y. a - y) ys))"
| "py_sub (NpArray xs) (PyFloat b) = Inr (NpArray (map (\<lambda>x. x - b) xs))"
| "py_sub (NpArray xs) (NpFloat b) = Inr (NpArray (map (\<lambda>x. x - b) xs))"
| "py_sub (NpArray xs) (NpArray ys) = array_sub xs ys"
| "py_sub (PyTuple xs) (PyFloat b) = Inl TypeError"
| "py_sub (PyFloat a) (PyTuple ys) = Inl TypeError"
| "py_sub (PyTuple xs) (PyTuple ys) = Inl TypeError"
| "py_sub (PyTuple xs) (NpFloat b) = Inr (NpArray (map (\<lambda>x. x - b) xs))"
| "py_sub (NpFloat a) (PyTuple ys) = Inr (NpArray (map (\<lambda>y. a - y) ys))"
| "py_sub (PyTuple xs) (NpArray ys) = array_sub xs ys"
| "py_sub (NpArray xs) (PyTuple ys) = array_sub xs ys"

text \<open>
  \<open>args\<close> is the tuple \<open>(S, K, r, t, price)\<close>. The prices that numpy computes are
  numpy doubles.
\<close>

definition call_objective_function ::
  "real \<Rightarrow> real \<times> real \<times> real \<times> real \<times> pyobj \<Rightarrow> failure + pyobj" where
  "call_objective_function sigma args =
     (case args of (S, K, r, t, price) \<Rightarrow>
        (case call_price sigma S K r t of
           Inl e \<Rightarrow> Inl e
         | Inr (C, d1, d2) \<Rightarrow> py_sub (PyTuple [C, d1, d2]) price))"

definition put_objective_function ::
  "real \<Rightarrow> real \<times> real \<times> real \<times> real \<times> pyobj \<Rightarrow> failure + pyobj" where
  "put_objective_function sigma args =
     (case args of (S, K, r, t, price) \<Rightarrow>
        (case put_price sigma S K r t of
           Inl e \<Rightarrow> Inl e
         | Inr P \<Rightarrow> py_sub (NpFloat P) price))"

definition call_ba_objective_function ::
  "real \<Rightarrow> real \<times> real \<times> real \<times> real \<times> pyobj \<Rightarrow> failure + pyobj" where
  "call_ba_objective_function sigma args =
     (case args of (S, K, r, t, price) \<Rightarrow>
        (case bachelier sigma S K r t of
           Inl e \<Rightarrow> Inl e
         | Inr C \<Rightarrow> py_sub (NpFloat C) price))"

section \<open>What the specification says of one iteration and of a run\<close>

text \<open>
  The spec's step 2 and step 3 on one element: the raw Newton step, and the damping
  rule that adds half of the raw result where the derivative is not positive.
\<close>

definition raw_step :: "real \<Rightarrow> real \<Rightarrow> real \<Rightarrow> real" where
  "raw_step r fv dv = r - fv / dv"

definition damped_step :: "real \<Rightarrow> real \<Rightarrow> real \<Rightarrow> real" where
  "damped_step r fv dv =
     (if dv \<le> 0 then raw_step r fv dv + 0.5 * raw_step r fv dv else raw_step r fv dv)"



text \<open>
  The estimate and the metric after \<open>k\<close> passes of the loop body, started from the
  pair \<open>(R, epsilon)\<close>; and the residual and derivative observed in each of the first
  \<open>k\<close> passes, in order.
\<close>

fun after_iterations ::
  "(npval \<Rightarrow> 'a \<Rightarrow> npval) \<Rightarrow> (npval \<Rightarrow> 'a \<Rightarrow> npval) \<Rightarrow> 'a \<Rightarrow> npval \<times> real \<Rightarrow> nat
     \<Rightarrow> failure + (npval \<times> real)" where
  "after_iterations f fprime args s 0 = Inr s"
| "after_iterations f fprime args s (Suc k) =
     (case newton_update f fprime args (fst s) of
        Inl e \<Rightarrow> Inl e
      | Inr (R', epsilon', fv, dv) \<Rightarrow> after_iterations f fprime args (R', epsilon') k)"

fun observed ::
  "(npval \<Rightarrow> 'a \<Rightarrow> npval) \<Rightarrow> (npval \<Rightarrow> 'a \<Rightarrow> npval) \<Rightarrow> 'a \<Rightarrow> npval \<Rightarrow> nat
     \<Rightarrow> (npval \<times> npval) list" where
  "observed f fprime args R 0 = []"
| "observed f fprime args R (Suc k) =
     (f R args, fprime R args) #
     (case newton_update f fprime args R of
        Inl e \<Rightarrow> []
      | Inr (R', epsilon', fv, dv) \<Rightarrow> observed f fprime args R' k)"

text \<open>
  When the loop is still running after \<open>j\<close> passes (the estimate exists and its
  metric has not dropped below \<open>tol\<close>), and when \<open>newtons_method\<close> performs pass
  \<open>k + 1\<close> of the loop body: the loop is still running after each of the passes
  \<open>0, \<dots>, k\<close> and the counter stays below the cap.
\<close>

fun still_running :: "real \<Rightarrow> failure + (npval \<times> real) \<Rightarrow> bool" where
  "still_running tol (Inl e) = False"
| "still_running tol (Inr (R, epsilon)) = (tol \<le> epsilon)"

definition performs_pass ::
  "(npval \<Rightarrow> 'a \<Rightarrow> npval) \<Rightarrow> (npval \<Rightarrow> 'a \<Rightarrow> npval) \<Rightarrow> npval \<Rightarrow> int \<Rightarrow> real \<Rightarrow> 'a \<Rightarrow> nat \<Rightarrow> bool" where
  "performs_pass f fprime R max_iter tol args k =
     (int k + 1 < max_iter \<and>
      (\<forall>j \<in> {..k}. still_running tol (after_iterations f fprime args (R, 1) j)))"


section \<open>Objectives to run the solver on\<close>

text \<open>
  A caller supplies the residual and its derivative. These serve as concrete inputs:
  \<open>f(R) = R\<^sup>2 - 2\<close> with \<open>f'(R) = 2 R\<close>, element-wise; the pair that answers ones
  of the shape of \<open>R\<close> for both, which moves every element by \<open>- 1\<close> in each pass
  and never converges; and minus ones of the shape of \<open>R\<close>, a derivative that is
  negative everywhere.
\<close>

definition square_residual :: "npval \<Rightarrow> unit \<Rightarrow> npval" where
  "square_residual R args =
     (case R of Scalar x \<Rightarrow> Scalar (x * x - 2) | Vector xs \<Rightarrow> Vector (map (\<lambda>x. x * x - 2) xs))"

definition square_derivative :: "npval \<Rightarrow> unit \<Rightarrow> npval" where
  "square_derivative R args =
     (case R of Scalar x \<Rightarrow> Scalar (2 * x) | Vector xs \<Rightarrow> Vector (map (\<lambda>x. 2 * x) xs))"

definition ones_like :: "npval \<Rightarrow> unit \<Rightarrow> npval" where
  "ones_like R args = (case R of Scalar x \<Rightarrow> Scalar 1 | Vector xs \<Rightarrow> Vector (map (\<lambda>x. 1) xs))"

definition minus_ones_like :: "npval \<Rightarrow> unit \<Rightarrow> npval" where
  "minus_ones_like R args = np_neg (ones_like R args)"

section \<open>Indexed assignment and the update of an array state\<close>

declare while_loop.simps [simp del]

lemmas evaluation = newton_update_def np_div_def np_add_def np_sub_def linf_norm_def assign_at_def
  square_residual_def square_derivative_def ones_like_def minus_ones_like_def newtons_method_def
  Let_def








text \<open>On scalars the loop body succeeds only where the derivative is positive.\<close>

lemma newton_update_Scalar:
  assumes "f (Scalar r) args = Scalar fv" and "fprime (Scalar r) args = Scalar dv"
  shows "newton_update f fprime args (Scalar r) =
     (if dv = 0 then Inl ZeroDivision
      else if dv < 0 then Inl TypeError
      else if r = 0 then Inl ZeroDivision
      else Inr (Scalar (- fv / dv + r), \<bar>(- fv / dv + r - r) / r\<bar>, Scalar fv, Scalar dv))"
  using assms unfolding newton_update_def Let_def
  by (simp add: np_div_def np_add_def)

lemma newton_update_InrD:
  assumes "newton_update f fprime args R = Inr (R', eps, fv, dv)"
  shows "fv = f R args" and "dv = fprime R args" and "convergence_metric R' R = Inr eps"
  using assms unfolding newton_update_def Let_def
  by (auto split: sum.splits if_splits)


section \<open>The loop, one pass at a time\<close>

lemma while_loop_stop:
  "\<not> tol \<le> epsilon \<Longrightarrow>
   while_loop f fprime max_iter tol args debug R count epsilon fvo dvo fs dfs =
     (case fvo of
        None \<Rightarrow> Inl UnboundLocalError
      | Some fv \<Rightarrow>
          (case dvo of
             None \<Rightarrow> Inl UnboundLocalError
           | Some dv \<Rightarrow> Inr (Converged R count epsilon fv dv fs dfs)))"
  by (subst while_loop.simps) simp

lemma while_loop_cap:
  "tol \<le> epsilon \<Longrightarrow> max_iter \<le> count + 1 \<Longrightarrow>
   while_loop f fprime max_iter tol args debug R count epsilon fvo dvo fs dfs =
     Inr (Aborted R (count + 1))"
  by (subst while_loop.simps) simp

lemma while_loop_fail:
  "tol \<le> epsilon \<Longrightarrow> \<not> max_iter \<le> count + 1 \<Longrightarrow>
   newton_update f fprime args R = Inl e \<Longrightarrow>
   while_loop f fprime max_iter tol args debug R count epsilon fvo dvo fs dfs = Inl e"
  by (subst while_loop.simps) simp

lemma while_loop_step:
  "tol \<le> epsilon \<Longrightarrow> \<not> max_iter \<le> count + 1 \<Longrightarrow>
   newton_update f fprime args R = Inr (R', eps', fv, dv) \<Longrightarrow>
   while_loop f fprime max_iter tol args debug R count epsilon fvo dvo fs dfs =
     while_loop f fprime max_iter tol args debug R' (count + 1) eps' (Some fv) (Some dv)
       (if debug then fs @ [fv] else fs) (if debug then dfs @ [dv] else dfs)"
  by (subst while_loop.simps) simp

lemma observed_nonempty: "0 < k \<Longrightarrow> observed f fprime args R k \<noteq> []"
  by (cases k) simp_all

lemma length_observed:
  "after_iterations f fprime args (R, epsilon) k = Inr s \<Longrightarrow>
   length (observed f fprime args R k) = k"
  by (induction k arbitrary: R epsilon) (auto split: sum.splits)

lemma still_running_iff:
  "still_running tol s \<longleftrightarrow> (\<exists>Rj ej. s = Inr (Rj, ej) \<and> tol \<le> ej)"
  by (cases s) auto

section \<open>The loop, many passes at a time\<close>

text \<open>What a run that ends after the loop returns, and what a run that ends at the cap returns.\<close>

lemma while_loop_ConvergedD:
  "while_loop f fprime max_iter tol args debug R count epsilon fvo dvo fs dfs =
     Inr (Converged R' n eps' fv dv fs' dfs') \<Longrightarrow>
   count \<le> n \<and>
   after_iterations f fprime args (R, epsilon) (nat (n - count)) = Inr (R', eps') \<and>
   eps' < tol \<and>
   fs' = fs @ (if debug then map fst (observed f fprime args R (nat (n - count))) else []) \<and>
   dfs' = dfs @ (if debug then map snd (observed f fprime args R (nat (n - count))) else []) \<and>
   (if n = count then fvo = Some fv \<and> dvo = Some dv
    else (fv, dv) = last (observed f fprime args R (nat (n - count))))"
proof (induction f fprime max_iter tol args debug R count epsilon fvo dvo fs dfs
    rule: while_loop.induct)
  case (1 f fprime max_iter tol args debug R count epsilon fvo dvo fs dfs)
  show ?case
  proof (cases "tol \<le> epsilon")
    case False
    with "1.prems" show ?thesis
      by (auto simp: while_loop_stop split: option.splits)
  next
    case running: True
    show ?thesis
    proof (cases "max_iter \<le> count + 1")
      case True
      with running "1.prems" show ?thesis
        by (simp add: while_loop_cap)
    next
      case below_cap: False
      show ?thesis
      proof (cases "newton_update f fprime args R")
        case (Inl e)
        with running below_cap "1.prems" show ?thesis
          by (simp add: while_loop_fail)
      next
        case (Inr b)
        obtain R1 e1 fv1 dv1 where b: "b = (R1, e1, fv1, dv1)"
          by (cases b) auto
        have upd: "newton_update f fprime args R = Inr (R1, e1, fv1, dv1)"
          using Inr b by simp
        have obs: "fv1 = f R args" "dv1 = fprime R args"
          using newton_update_InrD [OF upd] by simp_all
        have rec: "while_loop f fprime max_iter tol args debug R1 (count + 1) e1 (Some fv1)
             (Some dv1) (if debug then fs @ [fv1] else fs) (if debug then dfs @ [dv1] else dfs) =
           Inr (Converged R' n eps' fv dv fs' dfs')"
          using "1.prems" while_loop_step [OF running below_cap upd] by simp
        note ih = "1.IH" [OF running below_cap Inr b [symmetric] refl refl rec]
        let ?m = "nat (n - (count + 1))"
        have le: "count + 1 \<le> n" using ih by simp
        then have suc: "nat (n - count) = Suc ?m" by simp
        have a: "after_iterations f fprime args (R, epsilon) (nat (n - count)) = Inr (R', eps')"
          unfolding suc using ih upd by simp
        have o: "observed f fprime args R (nat (n - count)) =
                 (fv1, dv1) # observed f fprime args R1 ?m"
          unfolding suc using upd obs by simp
        have l: "(fv, dv) = last (observed f fprime args R (nat (n - count)))"
        proof (cases "n = count + 1")
          case True
          with ih have "fv1 = fv" "dv1 = dv" by simp_all
          with True o show ?thesis by simp
        next
          case False
          with le have "0 < ?m" by simp
          then have "observed f fprime args R1 ?m \<noteq> []" by (rule observed_nonempty)
          with False ih o show ?thesis by simp
        qed
        from le ih a o l show ?thesis by auto
      qed
    qed
  qed
qed

lemma while_loop_AbortedD:
  "while_loop f fprime max_iter tol args debug R count epsilon fvo dvo fs dfs =
     Inr (Aborted R' n) \<Longrightarrow>
   count < n \<and> n = max max_iter (count + 1) \<and>
   (\<exists>e. after_iterations f fprime args (R, epsilon) (nat (n - (count + 1))) = Inr (R', e) \<and>
        tol \<le> e)"
proof (induction f fprime max_iter tol args debug R count epsilon fvo dvo fs dfs
    rule: while_loop.induct)
  case (1 f fprime max_iter tol args debug R count epsilon fvo dvo fs dfs)
  show ?case
  proof (cases "tol \<le> epsilon")
    case False
    with "1.prems" show ?thesis
      by (auto simp: while_loop_stop split: option.splits)
  next
    case running: True
    show ?thesis
    proof (cases "max_iter \<le> count + 1")
      case True
      with running "1.prems" show ?thesis
        by (auto simp: while_loop_cap)
    next
      case below_cap: False
      show ?thesis
      proof (cases "newton_update f fprime args R")
        case (Inl e)
        with running below_cap "1.prems" show ?thesis
          by (simp add: while_loop_fail)
      next
        case (Inr b)
        obtain R1 e1 fv1 dv1 where b: "b = (R1, e1, fv1, dv1)"
          by (cases b) auto
        have upd: "newton_update f fprime args R = Inr (R1, e1, fv1, dv1)"
          using Inr b by simp
        have rec: "while_loop f fprime max_iter tol args debug R1 (count + 1) e1 (Some fv1)
             (Some dv1) (if debug then fs @ [fv1] else fs) (if debug then dfs @ [dv1] else dfs) =
           Inr (Aborted R' n)"
          using "1.prems" while_loop_step [OF running below_cap upd] by simp
        note ih = "1.IH" [OF running below_cap Inr b [symmetric] refl refl rec]
        from ih obtain e where lt: "count + 1 < n" and n: "n = max max_iter (count + 1 + 1)"
          and a: "after_iterations f fprime args (R1, e1) (nat (n - (count + 1 + 1))) = Inr (R', e)"
          and e: "tol \<le> e"
          by blast
        from lt have suc: "nat (n - (count + 1)) = Suc (nat (n - (count + 1 + 1)))"
          by simp
        have "after_iterations f fprime args (R, epsilon) (nat (n - (count + 1))) = Inr (R', e)"
          unfolding suc using a upd by simp
        moreover have "n = max max_iter (count + 1)"
          using n below_cap by simp
        ultimately show ?thesis
          using lt e by auto
      qed
    qed
  qed
qed

text \<open>As long as the loop is still running and below the cap, it goes on to the next pass.\<close>

lemma while_loop_unroll:
  assumes "\<forall>j<k. \<exists>Rj ej. after_iterations f fprime args (R, epsilon) j = Inr (Rj, ej) \<and> tol \<le> ej"
    and "after_iterations f fprime args (R, epsilon) k = Inr (Rk, ek)"
    and "count + int k < max_iter"
  shows "\<exists>fvo' dvo' fs' dfs'.
     while_loop f fprime max_iter tol args debug R count epsilon fvo dvo fs dfs =
     while_loop f fprime max_iter tol args debug Rk (count + int k) ek fvo' dvo' fs' dfs'"
  using assms
proof (induction k arbitrary: R epsilon count fvo dvo fs dfs)
  case 0
  then show ?case by auto
next
  case (Suc k)
  from Suc.prems(1) have running: "tol \<le> epsilon"
    by (auto dest: spec [of _ 0])
  from Suc.prems(3) have below_cap: "\<not> max_iter \<le> count + 1"
    by simp
  from Suc.prems(2) obtain R1 e1 fv1 dv1
    where upd: "newton_update f fprime args R = Inr (R1, e1, fv1, dv1)"
    by (auto split: sum.splits)
  have shift: "after_iterations f fprime args (R, epsilon) (Suc j) =
               after_iterations f fprime args (R1, e1) j" for j
    using upd by simp
  have 1: "\<forall>j<k. \<exists>Rj ej. after_iterations f fprime args (R1, e1) j = Inr (Rj, ej) \<and> tol \<le> ej"
  proof (intro allI impI)
    fix j assume "j < k"
    then have "Suc j < Suc k" by simp
    with Suc.prems(1) show "\<exists>Rj ej. after_iterations f fprime args (R1, e1) j = Inr (Rj, ej) \<and> tol \<le> ej"
      unfolding shift [symmetric] by blast
  qed
  have 2: "after_iterations f fprime args (R1, e1) k = Inr (Rk, ek)"
    using Suc.prems(2) shift by simp
  have 3: "(count + 1) + int k < max_iter"
    using Suc.prems(3) by simp
  from Suc.IH [OF 1 2 3] obtain fvo' dvo' fs' dfs' where
    "while_loop f fprime max_iter tol args debug R1 (count + 1) e1 (Some fv1) (Some dv1)
       (if debug then fs @ [fv1] else fs) (if debug then dfs @ [dv1] else dfs) =
     while_loop f fprime max_iter tol args debug Rk (count + 1 + int k) ek fvo' dvo' fs' dfs'"
    by blast
  moreover have "count + 1 + int k = count + int (Suc k)" by simp
  ultimately show ?case
    using while_loop_step [OF running below_cap upd] by metis
qed

lemma while_loop_unroll_running:
  assumes "\<forall>j<k. still_running tol (after_iterations f fprime args (R, epsilon) j)"
    and "after_iterations f fprime args (R, epsilon) k = Inr (Rk, ek)"
    and "count + int k < max_iter"
  shows "\<exists>fvo' dvo' fs' dfs'.
     while_loop f fprime max_iter tol args debug R count epsilon fvo dvo fs dfs =
     while_loop f fprime max_iter tol args debug Rk (count + int k) ek fvo' dvo' fs' dfs'"
  using assms by (intro while_loop_unroll) (simp_all add: still_running_iff)


section \<open>One iteration\<close>

text \<open>
  C1: every iteration is to take the raw Newton step and then damp the elements whose
  derivative is not positive, for a scalar state as for a vector state. For the scalar
  state \<open>R = - 1\<close> of \<open>f(R) = R\<^sup>2 - 2\<close>, with residual \<open>- 1\<close> and derivative \<open>- 2\<close>,
  the damped step is \<open>- 9 / 4\<close>; the iteration raises TypeError instead, since the
  damping indexes the scalar.
\<close>

theorem scalar_damping_raises:
  "newton_update square_residual square_derivative () (Scalar (- 1)) = Inl TypeError \<and>
   damped_step (- 1) (- 1) (- 2) = - 9 / 4"
  by (simp add: evaluation damped_step_def raw_step_def)





section \<open>A whole run\<close>

text \<open>
  C3, as the claim states it: a pair that never brings the metric below \<open>tol\<close> makes
  the solver return the estimate with a count of exactly \<open>max_iter\<close>, without raising.
  For the pair of ones, whose metric is \<open>1\<close> in every pass, and \<open>max_iter = 0\<close>
  the count returned is \<open>1\<close>; and the pair of a residual \<open>1\<close> and a derivative
  \<open>- 1\<close> on a scalar state raises in the first pass.
\<close>

theorem abort_count_counterexample:
  "newtons_method ones_like ones_like (Vector [0]) 0 (1 / 1000) () False =
     Inr (Aborted (Vector [0]) 1) \<and>
   newtons_method ones_like minus_ones_like (Scalar 1) 10 (1 / 1000) () False =
     Inl TypeError"
  by (simp add: evaluation while_loop.simps)

text \<open>
  C3, amended: if \<open>max_iter\<close> is at least \<open>1\<close> and the loop is still running after
  each of the passes \<open>0, \<dots>, max_iter - 1\<close> (every pass succeeds and no metric,
  the initial \<open>1\<close> included, is below \<open>tol\<close>), then \<open>newtons_method\<close> returns the
  estimate after \<open>max_iter - 1\<close> passes together with the count \<open>max_iter\<close>, as the
  pair \<open>(R, count)\<close>, which is no tuple of a converged run.
\<close>

theorem aborts_at_cap:
  assumes "1 \<le> max_iter"
    and "\<forall>j \<in> {..nat (max_iter - 1)}. still_running tol (after_iterations f fprime args (R, 1) j)"
  shows "\<exists>Rk ek. after_iterations f fprime args (R, 1) (nat (max_iter - 1)) = Inr (Rk, ek) \<and>
           newtons_method f fprime R max_iter tol args debug = Inr (Aborted Rk max_iter) \<and>
           (\<forall>R' n e fv dv fs dfs. Aborted Rk max_iter \<noteq> Converged R' n e fv dv fs dfs)"
proof -
  define k where "k = nat (max_iter - 1)"
  have k: "int k = max_iter - 1"
    using assms(1) by (simp add: k_def)
  from assms(2) have all: "\<forall>j \<in> {..k}. still_running tol (after_iterations f fprime args (R, 1) j)"
    by (simp add: k_def)
  then have "still_running tol (after_iterations f fprime args (R, 1) k)"
    by simp
  then obtain Rk ek where last: "after_iterations f fprime args (R, 1) k = Inr (Rk, ek)"
    and running: "tol \<le> ek"
    by (auto simp: still_running_iff)
  from all have before: "\<forall>j<k. still_running tol (after_iterations f fprime args (R, 1) j)"
    by simp
  have "0 + int k < max_iter" using k by simp
  from while_loop_unroll_running [OF before last this, of debug None None "[]" "[]"]
  obtain fvo' dvo' fs' dfs' where unroll:
    "newtons_method f fprime R max_iter tol args debug =
     while_loop f fprime max_iter tol args debug Rk (0 + int k) ek fvo' dvo' fs' dfs'"
    by (auto simp: newtons_method_def)
  have cap: "max_iter \<le> (0 + int k) + 1" and count: "(0 + int k) + 1 = max_iter"
    using k by simp_all
  have "newtons_method f fprime R max_iter tol args debug = Inr (Aborted Rk max_iter)"
    unfolding unroll while_loop_cap [OF running cap] count ..
  with last show ?thesis by (simp add: k_def)
qed

theorem aborts_at_cap_witness:
  "after_iterations ones_like ones_like () (Vector [0], 1) 2 = Inr (Vector [- 2], 1) \<and>
   newtons_method ones_like ones_like (Vector [0]) 3 (1 / 1000) () False =
     Inr (Aborted (Vector [- 2]) 3)"
proof -
  have a: "after_iterations ones_like ones_like () (Vector [0], 1) 0 = Inr (Vector [0], 1)"
    "after_iterations ones_like ones_like () (Vector [0], 1) 1 = Inr (Vector [- 1], 1)"
    "after_iterations ones_like ones_like () (Vector [0], 1) 2 = Inr (Vector [- 2], 1)"
    by (simp_all add: evaluation numeral_2_eq_2)
  have "{..nat (3 - 1)} = {0, 1, 2}"
    by auto
  then have run: "\<forall>j \<in> {..nat (3 - 1)}.
      still_running (1 / 1000) (after_iterations ones_like ones_like () (Vector [0], 1) j)"
    using a by simp
  from aborts_at_cap [OF _ run, of False] a(3) show ?thesis
    by simp
qed




text \<open>
  C6, as the claim states it: in the aborted state, too, the solver returns the metric,
  the residual, the derivative and the trace. At the cap it returns \<open>(R, count)\<close>
  only, here with tracing requested.
\<close>

theorem short_return_counterexample:
  "newtons_method square_residual square_derivative (Vector [1]) 2 (1 / 1000) () True =
     Inr (Aborted (Vector [3 / 2]) 2)"
  by (simp add: evaluation while_loop.simps)

text \<open>
  C6, amended: a run that ends after the loop returns the estimate after \<open>n\<close> passes,
  the number \<open>n \<ge> 1\<close> of passes, the metric of the last pass, the residual and the
  derivative observed in the last pass, and two lists: with tracing the residuals and
  the derivatives observed in the passes \<open>1, \<dots>, n\<close>, in order, without tracing two
  empty lists. A run that ends at the cap returns the estimate after \<open>n - 1\<close> passes
  and the count \<open>n = max max_iter 1\<close>, and nothing else.
\<close>

theorem return_contract:
  "(newtons_method f fprime R max_iter tol args debug = Inr (Converged R' n eps fv dv fs dfs) \<longrightarrow>
      1 \<le> n \<and>
      after_iterations f fprime args (R, 1) (nat n) = Inr (R', eps) \<and>
      length (observed f fprime args R (nat n)) = nat n \<and>
      (fv, dv) = last (observed f fprime args R (nat n)) \<and>
      fs = (if debug then map fst (observed f fprime args R (nat n)) else []) \<and>
      dfs = (if debug then map snd (observed f fprime args R (nat n)) else [])) \<and>
   (newtons_method f fprime R max_iter tol args debug = Inr (Aborted R' n) \<longrightarrow>
      n = max max_iter 1 \<and>
      (\<exists>e. after_iterations f fprime args (R, 1) (nat (n - 1)) = Inr (R', e)))"
proof (intro conjI impI)
  assume "newtons_method f fprime R max_iter tol args debug = Inr (Aborted R' n)"
  from while_loop_AbortedD [OF this [unfolded newtons_method_def]]
  show "n = max max_iter 1" and "\<exists>e. after_iterations f fprime args (R, 1) (nat (n - 1)) = Inr (R', e)"
    by auto
next
  assume "newtons_method f fprime R max_iter tol args debug = Inr (Converged R' n eps fv dv fs dfs)"
  note d = while_loop_ConvergedD [OF this [unfolded newtons_method_def]]
  from d show n: "1 \<le> n"
    by (cases "n = 0") auto
  from d show a: "after_iterations f fprime args (R, 1) (nat n) = Inr (R', eps)"
    by simp
  from a show "length (observed f fprime args R (nat n)) = nat n"
    by (rule length_observed)
  from d n show "(fv, dv) = last (observed f fprime args R (nat n))"
    by (cases "n = 0") auto
  from d show "fs = (if debug then map fst (observed f fprime args R (nat n)) else [])"
    and "dfs = (if debug then map snd (observed f fprime args R (nat n)) else [])"
    by simp_all
qed

theorem return_contract_witness:
  "after_iterations square_residual square_derivative () (Vector [1], 1) 2 =
     Inr (Vector [17 / 12], 1 / 12) \<and>
   observed square_residual square_derivative () (Vector [1]) 2 =
     [(Vector [- 1], Vector [2]), (Vector [1 / 4], Vector [3])] \<and>
   newtons_method square_residual square_derivative (Vector [1]) 10 (1 / 10) () True =
     Inr (Converged (Vector [17 / 12]) 2 (1 / 12) (Vector [1 / 4]) (Vector [3])
            [Vector [- 1], Vector [1 / 4]] [Vector [2], Vector [3]]) \<and>
   after_iterations square_residual square_derivative () (Vector [1], 1) 1 =
     Inr (Vector [3 / 2], 1 / 2) \<and>
   newtons_method square_residual square_derivative (Vector [1]) 2 (1 / 10) () True =
     Inr (Aborted (Vector [3 / 2]) 2)"
proof -
  have c: "newtons_method square_residual square_derivative (Vector [1]) 10 (1 / 10) () True =
     Inr (Converged (Vector [17 / 12]) 2 (1 / 12) (Vector [1 / 4]) (Vector [3])
            [Vector [- 1], Vector [1 / 4]] [Vector [2], Vector [3]])"
    by (simp add: evaluation while_loop.simps)
  have a: "newtons_method square_residual square_derivative (Vector [1]) 2 (1 / 10) () True =
     Inr (Aborted (Vector [3 / 2]) 2)"
    by (simp add: evaluation while_loop.simps)
  have o: "observed square_residual square_derivative () (Vector [1]) 2 =
     [(Vector [- 1], Vector [2]), (Vector [1 / 4], Vector [3])]"
    by (simp add: evaluation numeral_2_eq_2)
  from return_contract [of square_residual square_derivative "Vector [1]" 10 "1 / 10" "()" True
         "Vector [17 / 12]" 2 "1 / 12" "Vector [1 / 4]" "Vector [3]"
         "[Vector [- 1], Vector [1 / 4]]" "[Vector [2], Vector [3]]"] c
  have 1: "after_iterations square_residual square_derivative () (Vector [1], 1) 2 =
     Inr (Vector [17 / 12], 1 / 12)"
    by simp
  from return_contract [where f = square_residual and fprime = square_derivative
         and R = "Vector [1]" and max_iter = 2 and tol = "1 / 10" and args = "()" and debug = True
         and R' = "Vector [3 / 2]" and n = 2] a
  obtain e where "after_iterations square_residual square_derivative () (Vector [1], 1) 1 =
     Inr (Vector [3 / 2], e)"
    by auto
  then have 2: "after_iterations square_residual square_derivative () (Vector [1], 1) 1 =
     Inr (Vector [3 / 2], 1 / 2)"
    by (simp add: evaluation)
  from 1 2 c a o show ?thesis by simp
qed

text \<open>
  C10: if the state is a scalar and the derivative supplied in a pass that the solver
  performs is not positive, the solve fails with an exception: the damping indexes the
  scalar, which raises TypeError; for a derivative of zero the division before it is
  already outside the real numbers.
\<close>

theorem scalar_solve_fails:
  assumes "performs_pass f fprime R max_iter tol args k"
    and "after_iterations f fprime args (R, 1) k = Inr (Scalar r, ek)"
    and "f (Scalar r) args = Scalar fv"
    and "fprime (Scalar r) args = Scalar dv"
    and "dv \<le> 0"
  shows "newtons_method f fprime R max_iter tol args debug =
           Inl (if dv = 0 then ZeroDivision else TypeError)"
proof -
  from assms(1) have cap: "int k + 1 < max_iter"
    and run: "\<forall>j \<in> {..k}. still_running tol (after_iterations f fprime args (R, 1) j)"
    by (simp_all add: performs_pass_def)
  from run have "\<forall>j<k. still_running tol (after_iterations f fprime args (R, 1) j)"
    by simp
  from while_loop_unroll_running [OF this assms(2), of 0 max_iter debug None None "[]" "[]"] cap
  obtain fvo' dvo' fs' dfs' where unroll:
    "newtons_method f fprime R max_iter tol args debug =
     while_loop f fprime max_iter tol args debug (Scalar r) (int k) ek fvo' dvo' fs' dfs'"
    by (auto simp: newtons_method_def)
  from run assms(2) have running: "tol \<le> ek"
    by (auto dest: bspec [of _ _ k])
  from cap have below_cap: "\<not> max_iter \<le> int k + 1" by simp
  have "newton_update f fprime args (Scalar r) = Inl (if dv = 0 then ZeroDivision else TypeError)"
    using assms(5) newton_update_Scalar [where f = f and fprime = fprime, OF assms(3) assms(4)]
    by simp
  from while_loop_fail [OF running below_cap this] unroll show ?thesis
    by simp
qed

theorem scalar_solve_fails_witness:
  "performs_pass square_residual square_derivative (Scalar (- 1)) 1000 (1 / 1000) () 0 \<and>
   newtons_method square_residual square_derivative (Scalar (- 1)) 1000 (1 / 1000) () False =
     Inl TypeError"
proof -
  have p: "performs_pass square_residual square_derivative (Scalar (- 1)) 1000 (1 / 1000) () 0"
    by (simp add: performs_pass_def)
  have a: "after_iterations square_residual square_derivative () (Scalar (- 1), 1) 0 = Inr (Scalar (- 1), 1)"
    by simp
  have f: "square_residual (Scalar (- 1)) () = Scalar (- 1)"
    and d: "square_derivative (Scalar (- 1)) () = Scalar (- 2)"
    by (simp_all add: square_residual_def square_derivative_def)
  from scalar_solve_fails [OF p a f d, of False] p show ?thesis
    by simp
qed

section \<open>The pricing formulas\<close>

text \<open>
  C7: for positive \<open>sigma\<close>, \<open>t\<close>, \<open>S\<close> and \<open>K\<close>, \<open>call_price\<close> returns
  \<open>C = S \<Phi>(d1) - K exp(- r t) \<Phi>(d2)\<close> together with \<open>d1\<close> and \<open>d2\<close>, where
  \<open>d1 = (ln (S / K) + (r + sigma\<^sup>2 / 2) t) / (sigma sqrt t)\<close> and
  \<open>d2 = d1 - sigma sqrt t\<close>, and \<open>put_price\<close> returns
  \<open>P = K exp(- r t) \<Phi>(- d2) - S \<Phi>(- d1)\<close>.
\<close>

theorem call_put_price_formulas:
  assumes "0 < sigma" and "0 < t" and "0 < S" and "0 < K"
  shows "call_price sigma S K r t =
           (let d1 = (ln (S / K) + (r + sigma ^ 2 / 2) * t) / (sigma * sqrt t);
                d2 = d1 - sigma * sqrt t
            in Inr (S * norm_cdf d1 - K * exp (- r * t) * norm_cdf d2, d1, d2)) \<and>
         put_price sigma S K r t =
           (let d1 = (ln (S / K) + (r + sigma ^ 2 / 2) * t) / (sigma * sqrt t);
                d2 = d1 - sigma * sqrt t
            in Inr (K * exp (- r * t) * norm_cdf (- d2) - S * norm_cdf (- d1)))"
proof -
  have "0 < S / K" using assms by simp
  then have g: "\<not> S / K \<le> 0" by simp
  have d1: "(1 / sigma * (1 / sqrt t)) * x = x / (sigma * sqrt t)" for x
    by simp
  show ?thesis
    using assms g unfolding call_price_def put_price_def Let_def d1
    by (simp add: mult.commute)
qed

theorem call_put_price_formulas_witness:
  "call_price 1 1 1 0 1 = Inr (norm_cdf (1 / 2) - norm_cdf (- (1 / 2)), 1 / 2, - (1 / 2)) \<and>
   put_price 1 1 1 0 1 = Inr (norm_cdf (1 / 2) - norm_cdf (- (1 / 2)))"
  using call_put_price_formulas [of 1 1 1 1 0] by (simp add: Let_def)

lemma bachelier_radicand_pos:
  fixes sigma r t :: real
  assumes "0 < sigma" and "0 < t" and "r \<noteq> 0"
  shows "0 < sigma ^ 2 / (2 * r) * (exp (2 * r * t) - 1)"
proof (cases "0 < r")
  case True
  then have "0 < 2 * r * t" using assms by simp
  then have "1 < exp (2 * r * t)" by simp
  with True assms show ?thesis by simp
next
  case False
  with assms have neg: "r < 0" by simp
  then have "2 * r * t < 0" using assms by (simp add: mult_neg_pos)
  then have "exp (2 * r * t) - 1 < 0" by simp
  moreover have "sigma ^ 2 / (2 * r) < 0" using neg assms by (simp add: divide_pos_neg)
  ultimately show ?thesis by (rule mult_neg_neg [rotated])
qed

text \<open>
  C8: for positive \<open>sigma\<close>, \<open>t\<close>, \<open>S\<close>, \<open>K\<close> and a rate \<open>r\<close> other than zero,
  \<open>bachelier\<close> returns \<open>C = exp(- r t) ((S exp(r t) - K) \<Phi>(d) + v \<phi>(d))\<close> with
  \<open>v = sqrt (sigma\<^sup>2 / (2 r) (exp(2 r t) - 1))\<close> and \<open>d = (S exp(r t) - K) / v\<close>.
\<close>

theorem bachelier_formula:
  assumes "0 < sigma" and "0 < t" and "r \<noteq> 0" and "0 < S" and "0 < K"
  shows "bachelier sigma S K r t =
           (let v = sqrt (sigma ^ 2 / (2 * r) * (exp (2 * r * t) - 1));
                d = (S * exp (r * t) - K) / v
            in Inr (exp (- r * t) * ((S * exp (r * t) - K) * norm_cdf d + v * norm_pdf d)))"
proof -
  have pos: "0 < sigma ^ 2 / (2 * r) * (exp (2 * r * t) - 1)"
    using assms by (intro bachelier_radicand_pos)
  then have a: "\<not> sigma ^ 2 / (2 * r) * (exp (2 * r * t) - 1) < 0"
    by (simp only: not_less less_imp_le)
  from pos have "0 < sqrt (sigma ^ 2 / (2 * r) * (exp (2 * r * t) - 1))"
    by (rule real_sqrt_gt_zero)
  then have b: "sqrt (sigma ^ 2 / (2 * r) * (exp (2 * r * t) - 1)) \<noteq> 0"
    by (rule less_imp_neq [THEN not_sym])
  have c: "2 * r \<noteq> 0" using assms by simp
  show ?thesis
    unfolding bachelier_def Let_def
    by (simp only: a b c if_False) (simp add: algebra_simps)
qed

theorem bachelier_formula_witness:
  "bachelier 1 1 1 (1 / 2) 1 =
     Inr (exp (- (1 / 2)) *
          ((exp (1 / 2) - 1) * norm_cdf ((exp (1 / 2) - 1) / sqrt (exp 1 - 1)) +
           sqrt (exp 1 - 1) * norm_pdf ((exp (1 / 2) - 1) / sqrt (exp 1 - 1))))"
  using bachelier_formula [of 1 1 "1 / 2" 1 1] by (simp add: Let_def)

section \<open>Put-call parity of the log-normal model\<close>

text \<open>
  The series of the distribution function converges for every \<open>x\<close> and is odd in
  \<open>x\<close>, so \<open>\<Phi>(- x) = 1 - \<Phi>(x)\<close>; with it the call and the put of the log-normal
  model differ by \<open>S - K exp(- r t)\<close> wherever both are defined. The notebook has no
  put of the arithmetic model to compare with \<open>bachelier\<close>.
\<close>

lemma cdf_term_minus: "cdf_term (- x) n = - cdf_term x n"
  by (simp add: cdf_term_def)

lemma cdf_term_bound: "norm (cdf_term x n) \<le> \<bar>x\<bar> * (inverse (fact n) * (x ^ 2 / 2) ^ n)"
proof -
  have "norm (cdf_term x n) = \<bar>x\<bar> * (x ^ 2 / 2) ^ n / (fact n * real (2 * n + 1))"
    by (simp add: cdf_term_def abs_mult power_abs power_mult power_divide abs_divide)
  also have "\<dots> \<le> \<bar>x\<bar> * (x ^ 2 / 2) ^ n / (fact n * 1)"
    by (intro divide_left_mono mult_left_mono mult_pos_pos mult_nonneg_nonneg) simp_all
  finally show ?thesis
    by (simp add: field_simps)
qed

lemma summable_cdf_term: "summable (cdf_term x)"
proof (rule summable_comparison_test')
  show "summable (\<lambda>n. \<bar>x\<bar> * (inverse (fact n) * (x ^ 2 / 2) ^ n))"
    by (intro summable_mult summable_exp)
  show "norm (cdf_term x n) \<le> \<bar>x\<bar> * (inverse (fact n) * (x ^ 2 / 2) ^ n)" for n
    by (rule cdf_term_bound)
qed

lemma norm_cdf_minus: "norm_cdf (- x) = 1 - norm_cdf x"
proof -
  have "(\<Sum>n. cdf_term (- x) n) = - (\<Sum>n. cdf_term x n)"
    unfolding cdf_term_minus by (rule suminf_minus [OF summable_cdf_term])
  then show ?thesis
    by (simp add: norm_cdf_def)
qed

lemma put_call_parity:
  assumes "call_price sigma S K r t = Inr (C, d1, d2)" and "put_price sigma S K r t = Inr P"
  shows "C - P = S - K * exp (- r * t)"
proof -
  from assms(1) have C: "C = S * norm_cdf d1 - (norm_cdf d2 * K) * exp (- r * t)"
    and d1: "d1 = (1 / sigma * (1 / sqrt t)) * (ln (S / K) + (r + sigma ^ 2 / 2) * t)"
    and d2: "d2 = d1 - sigma * sqrt t"
    by (auto simp: call_price_def Let_def split: if_splits)
  from assms(2) have "P = - (S * norm_cdf (- d1)) + (norm_cdf (- d2) * K) * exp (- r * t)"
    unfolding d2 d1 by (auto simp: put_price_def Let_def split: if_splits)
  then have "P = - (S * (1 - norm_cdf d1)) + ((1 - norm_cdf d2) * K) * exp (- r * t)"
    by (simp only: norm_cdf_minus)
  with C show ?thesis
    by (simp add: algebra_simps)
qed

section \<open>What the objective functions return\<close>

text \<open>
  The objectives of the put and of the arithmetic call return the price minus the
  observed price.
\<close>

lemma put_objective_function_residual:
  assumes "put_price sigma S K r t = Inr P"
  shows "put_objective_function sigma (S, K, r, t, PyFloat price) = Inr (NpFloat (P - price))"
  using assms by (simp add: put_objective_function_def)

lemma call_ba_objective_function_residual:
  assumes "bachelier sigma S K r t = Inr C"
  shows "call_ba_objective_function sigma (S, K, r, t, PyFloat price) = Inr (NpFloat (C - price))"
  using assms by (simp add: call_ba_objective_function_def)

text \<open>
  The objective of the log-normal call never returns a number, whatever the observed
  price is: it fails, or numpy turns the tuple into an array of three.
\<close>

lemma array_sub_not_number:
  "array_sub xs ys \<noteq> Inr (PyFloat x)" "array_sub xs ys \<noteq> Inr (NpFloat x)"
  by (simp_all add: array_sub_def)

lemma call_objective_function_not_number:
  "call_objective_function sigma (S, K, r, t, price) \<noteq> Inr (PyFloat x)"
  "call_objective_function sigma (S, K, r, t, price) \<noteq> Inr (NpFloat x)"
  by (cases "call_price sigma S K r t"; cases price;
      simp add: call_objective_function_def array_sub_not_number split: prod.splits)+

text \<open>
  C5: \<open>call_objective_function\<close> is to return the call price minus the observed
  price. At the notebook's own arguments (\<open>S = K = 105\<close>, \<open>r = 0.01\<close>,
  \<open>t = 30 / 365\<close>, a Python float as observed price) and \<open>sigma = 0.3\<close> it raises
  TypeError instead: \<open>call_price\<close> returns the tuple \<open>(C, d1, d2)\<close>, and Python
  does not subtract a float from a tuple.
\<close>

theorem call_objective_function_raises:
  "call_objective_function (3 / 10) (105, 105, 1 / 100, 30 / 365, PyFloat (36446 / 10000)) =
     Inl TypeError"
  by (simp add: call_objective_function_def call_price_def Let_def)

end
